theory Spec2Isabelle
  imports Complex_Main "HOL-Library.Sublist" "HOL-Library.AList"
begin

section \<open>Strings and paths\<close>

text \<open>
  A Python \<open>str\<close> is a \<open>string\<close>, one \<open>char\<close> per character (ASCII text), so that
  \<open>len\<close> is \<open>length\<close> and the slice \<open>s[:n]\<close> is \<open>take n s\<close>.
\<close>

definition lower_char :: "char \<Rightarrow> char" where
  "lower_char c =
     (if 65 \<le> (of_char c :: nat) \<and> (of_char c :: nat) \<le> 90
      then char_of ((of_char c :: nat) + 32) else c)"

text \<open>\<open>s.lower()\<close>\<close>

definition lower :: "string \<Rightarrow> string" where
  "lower s = map lower_char s"

text \<open>\<open>needle in hay\<close> on strings: \<open>needle\<close> occurs as a contiguous run.\<close>

definition contains :: "string \<Rightarrow> string \<Rightarrow> bool" where
  "contains needle hay = sublist needle hay"

definition endswith :: "string \<Rightarrow> string \<Rightarrow> bool" where
  "endswith s suf = suffix suf s"

definition startswith :: "string \<Rightarrow> string \<Rightarrow> bool" where
  "startswith s pre = prefix pre s"

text \<open>\<open>os.path.basename\<close> (POSIX): what follows the last slash.\<close>

definition basename :: "string \<Rightarrow> string" where
  "basename p = rev (takeWhile (\<lambda>c. c \<noteq> CHR ''/'') (rev p))"

text \<open>\<open>os.path.join\<close> (POSIX) of two components.\<close>

definition path_join :: "string \<Rightarrow> string \<Rightarrow> string" where
  "path_join a b =
     (if startswith b ''/'' then b
      else if a = [] \<or> endswith a ''/'' then a @ b
      else a @ ''/'' @ b)"


text \<open>\<open>sep.join(parts)\<close>\<close>

fun str_join :: "string \<Rightarrow> string list \<Rightarrow> string" where
  "str_join sep [] = []"
| "str_join sep [x] = x"
| "str_join sep (x # y # ys) = x @ sep @ str_join sep (y # ys)"

text \<open>Truthiness of an optional string: \<open>None\<close> and the empty string are falsy.\<close>

definition truthy :: "string option \<Rightarrow> bool" where
  "truthy s = (case s of None \<Rightarrow> False | Some p \<Rightarrow> p \<noteq> [])"

section \<open>Data model\<close>

text \<open>
  The metadata dictionary of a LangChain \<open>Document\<close>, restricted to the three keys the
  service reads; \<open>None\<close> is an absent key.
\<close>

record metadata =
  md_source :: "string option"
  md_filename :: "string option"
  md_page :: "int option"

record document =
  page_content :: string
  metadata :: metadata

text \<open>One entry of the \<open>references\<close> list of a query response.\<close>

record reference =
  ref_id :: string
  ref_filename :: string
  ref_source :: string
  ref_page :: int
  ref_preview :: string

record query_result =
  answer :: string
  references :: "reference list"
  context_used :: nat

record index_result =
  raw_count :: nat
  chunk_count :: nat
  files :: "string set"

record document_info =
  di_filename :: string
  di_path :: string
  di_size :: nat

record http_exception =
  status_code :: nat
  detail :: string

record upload_response =
  up_message :: string
  up_filename :: string
  up_chunks :: nat

text \<open>\<open>src/config.py\<close>: the settings object.\<close>

record settings =
  qdrant_url :: string
  qdrant_api_key :: string
  google_api_key :: string
  collection_name :: string
  documents_dir :: string

section \<open>The external collaborators\<close>

text \<open>
  The documents directory holds regular files and possibly other entries (the listing
  filters with \<open>os.path.isfile\<close>). It is an association list from entry name to entry:
  a file is addressed by its name in the directory, the path of the source being
  \<open>os.path.join(settings.documents_dir, name)\<close>. A directory that does not exist behaves
  as an empty one in every operation below.
\<close>

datatype entry = File string | Directory

text \<open>The application's collection in the vector index.\<close>

record collection =
  dim :: nat
  points :: "document list"
  filename_index :: bool

text \<open>A remote call to the vector index, the embedding provider or the completion provider.\<close>

datatype call =
    GetCollections
  | CreateCollection nat
  | CreatePayloadIndex
  | ConnectStore
  | DeletePoints string
  | AddDocuments "document list"
  | EmbedQuery string
  | Retrieve string int
  | ChainInvoke string string

text \<open>
  The mutable world: the documents directory, the application's collection (\<open>None\<close> when
  it does not exist), the \<open>vector_store\<close> attribute of the module-level \<open>rag_service\<close>
  singleton (\<open>False\<close> for \<open>None\<close>), the outcomes of the coming remote calls (\<open>Some msg\<close>:
  the call raises an exception whose \<open>str\<close> is \<open>msg\<close> and has no effect; an exhausted
  script means no transport failure), and the trace of the remote calls issued so far.
\<close>

record world =
  documents :: "(string \<times> entry) list"
  vector_index :: "collection option"
  vector_store :: bool
  script :: "string option list"
  trace :: "call list"

text \<open>
  The libraries the service delegates to, as uninterpreted functions: the three document
  loaders (given a path and the directory's content), the text splitter, the embedding
  model, the similarity search over the stored points and the prompt-to-answer chain.
\<close>

record env =
  settings :: settings
  text_loader :: "string \<Rightarrow> (string \<times> entry) list \<Rightarrow> string + document list"
  pdf_loader :: "string \<Rightarrow> (string \<times> entry) list \<Rightarrow> string + document list"
  directory_loader :: "string \<Rightarrow> (string \<times> entry) list \<Rightarrow> string + document list"
  split_documents :: "document list \<Rightarrow> document list"
  embed :: "string \<Rightarrow> real list"
  similarity :: "string \<Rightarrow> int \<Rightarrow> document list \<Rightarrow> document list"
  completion :: "string \<Rightarrow> string \<Rightarrow> string"

text \<open>The transport failure awaiting the next remote call, if any.\<close>

definition fault :: "world \<Rightarrow> string option" where
  "fault w = (case script w of [] \<Rightarrow> None | f # fs \<Rightarrow> f)"

text \<open>Issuing a remote call: it is traced and consumes one entry of the script.\<close>

definition issue :: "call \<Rightarrow> world \<Rightarrow> string option \<times> world" where
  "issue c w = (fault w, w\<lparr>script := tl (script w), trace := trace w @ [c]\<rparr>)"

definition not_found :: "env \<Rightarrow> string" where
  "not_found env =
     ''Not found: Collection `'' @ collection_name (settings env) @ ''` doesn'' @ [CHR 0x27] @ ''t exist!''"

definition already_exists :: "env \<Rightarrow> string" where
  "already_exists env =
     ''Wrong input: Collection `'' @ collection_name (settings env) @ ''` already exists!''"

text \<open>\<open>qdrant_client.get_collections()\<close>, as the list of collection names.\<close>

definition get_collections :: "env \<Rightarrow> world \<Rightarrow> (string + string list) \<times> world" where
  "get_collections env w =
     (case issue GetCollections w of
        (Some e, w') \<Rightarrow> (Inl e, w')
      | (None, w') \<Rightarrow>
          (Inr (case vector_index w' of
                  None \<Rightarrow> []
                | Some c \<Rightarrow> [collection_name (settings env)]), w'))"

text \<open>\<open>qdrant_client.create_collection\<close> with a vector size.\<close>

definition create_collection :: "env \<Rightarrow> nat \<Rightarrow> world \<Rightarrow> (string + unit) \<times> world" where
  "create_collection env n w =
     (case issue (CreateCollection n) w of
        (Some e, w') \<Rightarrow> (Inl e, w')
      | (None, w') \<Rightarrow>
          (case vector_index w' of
             Some c \<Rightarrow> (Inl (already_exists env), w')
           | None \<Rightarrow>
               (Inr (), w'\<lparr>vector_index :=
                  Some \<lparr>dim = n, points = [], filename_index = False\<rparr>\<rparr>)))"

text \<open>\<open>qdrant_client.create_payload_index\<close> on \<open>metadata.filename\<close>.\<close>

definition create_payload_index :: "env \<Rightarrow> world \<Rightarrow> (string + unit) \<times> world" where
  "create_payload_index env w =
     (case issue CreatePayloadIndex w of
        (Some e, w') \<Rightarrow> (Inl e, w')
      | (None, w') \<Rightarrow>
          (case vector_index w' of
             None \<Rightarrow> (Inl (not_found env), w')
           | Some c \<Rightarrow> (Inr (), w'\<lparr>vector_index := Some (c\<lparr>filename_index := True\<rparr>)\<rparr>)))"

text \<open>The constructor \<open>QdrantVectorStore(client, collection_name, embedding)\<close>.\<close>

definition connect_store :: "world \<Rightarrow> (string + unit) \<times> world" where
  "connect_store w =
     (case issue ConnectStore w of
        (Some e, w') \<Rightarrow> (Inl e, w')
      | (None, w') \<Rightarrow> (Inr (), w'))"

text \<open>
  \<open>qdrant_client.delete\<close> with the filter \<open>metadata.filename = name\<close>: every point whose
  payload carries that filename goes.
\<close>

definition delete_points :: "env \<Rightarrow> string \<Rightarrow> world \<Rightarrow> (string + unit) \<times> world" where
  "delete_points env name w =
     (case issue (DeletePoints name) w of
        (Some e, w') \<Rightarrow> (Inl e, w')
      | (None, w') \<Rightarrow>
          (case vector_index w' of
             None \<Rightarrow> (Inl (not_found env), w')
           | Some c \<Rightarrow>
               (Inr (), w'\<lparr>vector_index := Some (c\<lparr>points :=
                  filter (\<lambda>p. md_filename (metadata p) \<noteq> Some name) (points c)\<rparr>)\<rparr>)))"

text \<open>\<open>vector_store.add_documents\<close>: the chunks are embedded and inserted as new points.\<close>

definition add_documents :: "env \<Rightarrow> document list \<Rightarrow> world \<Rightarrow> (string + unit) \<times> world" where
  "add_documents env docs w =
     (case issue (AddDocuments docs) w of
        (Some e, w') \<Rightarrow> (Inl e, w')
      | (None, w') \<Rightarrow>
          (case vector_index w' of
             None \<Rightarrow> (Inl (not_found env), w')
           | Some c \<Rightarrow>
               (Inr (), w'\<lparr>vector_index := Some (c\<lparr>points := points c @ docs\<rparr>)\<rparr>)))"

text \<open>\<open>embeddings.embed_query\<close>\<close>

definition embed_query :: "env \<Rightarrow> string \<Rightarrow> world \<Rightarrow> (string + real list) \<times> world" where
  "embed_query env s w =
     (case issue (EmbedQuery s) w of
        (Some e, w') \<Rightarrow> (Inl e, w')
      | (None, w') \<Rightarrow> (Inr (embed env s), w'))"

text \<open>\<open>vector_store.as_retriever(search_kwargs={"k": k}).invoke(question)\<close>\<close>

definition retriever_invoke ::
  "env \<Rightarrow> string \<Rightarrow> int \<Rightarrow> world \<Rightarrow> (string + document list) \<times> world" where
  "retriever_invoke env question k w =
     (case issue (Retrieve question k) w of
        (Some e, w') \<Rightarrow> (Inl e, w')
      | (None, w') \<Rightarrow>
          (case vector_index w' of
             None \<Rightarrow> (Inl (not_found env), w')
           | Some c \<Rightarrow> (Inr (similarity env question k (points c)), w')))"

text \<open>
  \<open>chain.invoke({"context": context, "question": question})\<close>, the chain being the fixed
  prompt template piped into the chat model and the string parser.
\<close>

definition chain_invoke :: "env \<Rightarrow> string \<Rightarrow> string \<Rightarrow> world \<Rightarrow> (string + string) \<times> world" where
  "chain_invoke env context question w =
     (case issue (ChainInvoke context question) w of
        (Some e, w') \<Rightarrow> (Inl e, w')
      | (None, w') \<Rightarrow> (Inr (completion env context question), w'))"

section \<open>The service: \<open>src/services/rag_service.py\<close>\<close>

text \<open>
  Exceptions are values: a service operation returns \<open>Inl msg\<close> for an exception whose
  \<open>str\<close> is \<open>msg\<close>, next to the world as the exception leaves it.
\<close>

subsection \<open>Start-up\<close>

text \<open>
  \<open>RAGService._initialize_vector_store\<close>. Both \<open>try\<close> blocks swallow every exception; only
  the \<open>QdrantVectorStore\<close> constructor at the end can make the method raise.
\<close>

definition initialize_vector_store :: "env \<Rightarrow> world \<Rightarrow> (string + unit) \<times> world" where
  "initialize_vector_store env w =
     (let w1 =
        (case get_collections env w of
           (Inl e, wa) \<Rightarrow> wa
         | (Inr collection_names, wa) \<Rightarrow>
             if collection_name (settings env) \<notin> set collection_names then
               (case embed_query env ''test'' wa of
                  (r, wb) \<Rightarrow>
                    let embedding_dim =
                      (case r of Inl e \<Rightarrow> 768 | Inr test_embedding \<Rightarrow> length test_embedding)
                    in snd (create_collection env embedding_dim wb))
             else wa);
          w2 = snd (create_payload_index env w1)
      in case connect_store w2 of
           (Inl e, w3) \<Rightarrow> (Inl e, w3)
         | (Inr u, w3) \<Rightarrow> (Inr (), w3\<lparr>vector_store := True\<rparr>))"

text \<open>\<open>RAGService.__init__\<close>, run once when the module is imported.\<close>

definition RAGService_init :: "env \<Rightarrow> world \<Rightarrow> (string + unit) \<times> world" where
  "RAGService_init env w =
     (if google_api_key (settings env) = [] then
        (Inl ''GOOGLE_API_KEY not found. Please set it in your .env file.'', w)
      else initialize_vector_store env (w\<lparr>vector_store := False\<rparr>))"

subsection \<open>Indexing\<close>

text \<open>The loader chosen by \<open>load_and_index_documents\<close> and its \<open>load()\<close>.\<close>

definition load_raw :: "env \<Rightarrow> string option \<Rightarrow> world \<Rightarrow> string + document list" where
  "load_raw env file_path w =
     (case file_path of
        None \<Rightarrow> directory_loader env (documents_dir (settings env)) (documents w)
      | Some p \<Rightarrow>
          if p = [] then directory_loader env (documents_dir (settings env)) (documents w)
          else if endswith p ''.pdf'' then pdf_loader env p (documents w)
          else text_loader env p (documents w))"

text \<open>The body of the loop that adds the metadata for source tracking.\<close>

definition stamp :: "string option \<Rightarrow> document \<Rightarrow> document" where
  "stamp file_path doc =
     (let md = metadata doc;
          md1 =
            (if md_source md = None \<or> md_source md = Some [] then
               md\<lparr>md_source := Some
                 (case md_source md of
                    Some s \<Rightarrow> s
                  | None \<Rightarrow> (if truthy file_path then the file_path else ''unknown''))\<rparr>
             else md);
          md2 = md1\<lparr>md_filename := Some
                 (basename (case md_source md1 of Some s \<Rightarrow> s | None \<Rightarrow> []))\<rparr>
      in doc\<lparr>metadata := md2\<rparr>)"

definition is_missing_collection :: "string \<Rightarrow> bool" where
  "is_missing_collection e =
     (contains (''doesn'' @ [CHR 0x27] @ ''t exist'') e \<or> contains ''not found'' (lower e))"

definition is_already_exists :: "string \<Rightarrow> bool" where
  "is_already_exists e =
     (contains ''already exists'' (lower e) \<or> contains ''duplicate'' (lower e))"

text \<open>
  The block under \<open># Add to vector store\<close>, entered when \<open>self.vector_store and documents\<close>:
  the filtered delete (single-file variant only, its failure reduced to a warning), the
  insertion, and the handler that creates a missing collection and inserts again.
\<close>

definition add_to_vector_store ::
  "env \<Rightarrow> string option \<Rightarrow> document list \<Rightarrow> world \<Rightarrow> (string + unit) \<times> world" where
  "add_to_vector_store env file_path docs w =
     (let w1 = (if truthy file_path
                then snd (delete_points env (basename (the file_path)) w) else w)
      in case add_documents env docs w1 of
           (Inr u, w2) \<Rightarrow> (Inr (), w2)
         | (Inl e, w2) \<Rightarrow>
             if is_missing_collection e then
               (case embed_query env ''test'' w2 of
                  (Inl e1, w3) \<Rightarrow> (Inl e1, w3)
                | (Inr test_embedding, w3) \<Rightarrow>
                    (case create_collection env (length test_embedding) w3 of
                       (Inl create_error, w4) \<Rightarrow>
                         if \<not> is_already_exists create_error then (Inl create_error, w4)
                         else add_documents env docs w4
                     | (Inr u, w4) \<Rightarrow> add_documents env docs w4))
             else (Inl e, w2))"

text \<open>\<open>RAGService.load_and_index_documents\<close>\<close>

definition load_and_index_documents ::
  "env \<Rightarrow> string option \<Rightarrow> world \<Rightarrow> (string + index_result) \<times> world" where
  "load_and_index_documents env file_path w =
     (case load_raw env file_path w of
        Inl e \<Rightarrow> (Inl e, w)
      | Inr loaded \<Rightarrow>
          let raw_documents = map (stamp file_path) loaded;
              docs = split_documents env raw_documents;
              result = \<lparr>raw_count = length raw_documents,
                        chunk_count = length docs,
                        files = set (map (\<lambda>d. case md_filename (metadata d) of
                                                  Some f \<Rightarrow> f | None \<Rightarrow> ''unknown'') docs)\<rparr>
          in if vector_store w \<and> docs \<noteq> [] then
               (case add_to_vector_store env file_path docs w of
                  (Inl e, w') \<Rightarrow> (Inl e, w')
                | (Inr u, w') \<Rightarrow> (Inr result, w'))
             else (Inr result, w))"

subsection \<open>Query\<close>

definition no_documents_response :: query_result where
  "no_documents_response =
     \<lparr>answer = ''No documents have been indexed yet. Please upload and index some documents first.'',
      references = [], context_used = 0\<rparr>"

definition no_information_response :: query_result where
  "no_information_response =
     \<lparr>answer = ''I couldn'' @ [CHR 0x27] @ ''t find any relevant information in the documents to answer your question.'',
      references = [], context_used = 0\<rparr>"

text \<open>The three metadata reads of the reference loop, each with its default.\<close>

definition doc_source :: "document \<Rightarrow> string" where
  "doc_source d = (case md_source (metadata d) of Some s \<Rightarrow> s | None \<Rightarrow> ''unknown'')"

definition doc_filename :: "document \<Rightarrow> string" where
  "doc_filename d =
     (case md_filename (metadata d) of Some f \<Rightarrow> f | None \<Rightarrow> basename (doc_source d))"

definition doc_page :: "document \<Rightarrow> int" where
  "doc_page d = (case md_page (metadata d) of Some p \<Rightarrow> p | None \<Rightarrow> 0)"

text \<open>\<open>page_content[:200] + "..." if len(page_content) > 200 else page_content\<close>\<close>

definition preview :: "string \<Rightarrow> string" where
  "preview content = (if length content > 200 then take 200 content @ ''...'' else content)"

definition make_reference :: "document \<Rightarrow> reference" where
  "make_reference d =
     \<lparr>ref_id = doc_filename d, ref_filename = doc_filename d, ref_source = doc_source d,
      ref_page = doc_page d, ref_preview = preview (page_content d)\<rparr>"

text \<open>
  The loop under \<open># Prepare references with metadata\<close>, with its two accumulators
  \<open>references\<close> and \<open>seen_sources\<close>.
\<close>

fun references_loop :: "document list \<Rightarrow> reference list \<Rightarrow> string set \<Rightarrow> reference list" where
  "references_loop [] refs seen_sources = refs"
| "references_loop (d # ds) refs seen_sources =
     (if doc_filename d \<notin> seen_sources
      then references_loop ds (refs @ [make_reference d]) (insert (doc_filename d) seen_sources)
      else references_loop ds refs seen_sources)"

text \<open>The context block handed to the prompt.\<close>

definition build_context :: "document list \<Rightarrow> string" where
  "build_context docs =
     str_join ([CHR 0x0A, CHR 0x0A] @ ''---'' @ [CHR 0x0A, CHR 0x0A])
       (map (\<lambda>d. ''[Source: '' @ doc_filename d @ '']'' @ [CHR 0x0A] @ page_content d) docs)"

text \<open>\<open>RAGService.query\<close>\<close>

definition query :: "env \<Rightarrow> string \<Rightarrow> int \<Rightarrow> world \<Rightarrow> (string + query_result) \<times> world" where
  "query env question k w =
     (case (if \<not> vector_store w then initialize_vector_store env w else (Inr (), w)) of
        (Inl e, w0) \<Rightarrow> (Inl e, w0)
      | (Inr u, w0) \<Rightarrow>
          (case get_collections env w0 of
             (r, w1) \<Rightarrow>
               if (case r of
                     Inr collection_names \<Rightarrow> collection_name (settings env) \<notin> set collection_names
                   | Inl e \<Rightarrow> False)
               then (Inr no_documents_response, w1)
               else
                 (case retriever_invoke env question k w1 of
                    (Inl e, w2) \<Rightarrow>
                      if is_missing_collection e then (Inr no_documents_response, w2)
                      else (Inl e, w2)
                  | (Inr docs, w2) \<Rightarrow>
                      if docs = [] then (Inr no_information_response, w2)
                      else
                        (case chain_invoke env (build_context docs) question w2 of
                           (Inl e, w3) \<Rightarrow> (Inl e, w3)
                         | (Inr a, w3) \<Rightarrow>
                             (Inr \<lparr>answer = a,
                                   references = references_loop docs [] {},
                                   context_used = length docs\<rparr>, w3)))))"

subsection \<open>Document management\<close>



text \<open>\<open>RAGService.get_document_list\<close>\<close>

definition get_document_list :: "env \<Rightarrow> world \<Rightarrow> document_info list" where
  "get_document_list env w =
     concat (map (\<lambda>(name, e).
        case e of
          File content \<Rightarrow>
            [\<lparr>di_filename = name,
              di_path = path_join (documents_dir (settings env)) name,
              di_size = length content\<rparr>]
        | Directory \<Rightarrow> []) (documents w))"

section \<open>The HTTP surface: \<open>src/routes/api.py\<close>\<close>

fun digits :: "nat \<Rightarrow> string" where
  "digits n =
     (if n < 10 then [char_of (48 + n)]
      else digits (n div 10) @ [char_of (48 + n mod 10)])"

declare digits.simps [simp del]

text \<open>\<open>str(e)\<close> of an \<open>HTTPException\<close>.\<close>

definition str_http_exception :: "http_exception \<Rightarrow> string" where
  "str_http_exception e = digits (status_code e) @ '': '' @ detail e"

text \<open>\<open>open(file_path, "wb")\<close> followed by the copy of the uploaded bytes.\<close>

definition write_file :: "string \<Rightarrow> string \<Rightarrow> world \<Rightarrow> (string + unit) \<times> world" where
  "write_file name content w =
     (case map_of (documents w) name of
        Some Directory \<Rightarrow> (Inl (''[Errno 21] Is a directory: '' @ name), w)
      | _ \<Rightarrow> (Inr (), w\<lparr>documents := AList.update name (File content) (documents w)\<rparr>))"

text \<open>
  The route \<open>POST /api/upload\<close>. The limit's \<open>HTTPException\<close> is raised inside the \<open>try\<close>,
  so the handler \<open>except Exception\<close> wraps it like any other failure.
\<close>

definition upload_file ::
  "env \<Rightarrow> string \<Rightarrow> string \<Rightarrow> world \<Rightarrow> (http_exception + upload_response) \<times> world" where
  "upload_file env name content w =
     (let current_documents = get_document_list env w in
      if length current_documents \<ge> 20 then
        (Inl \<lparr>status_code = 500,
              detail = ''Error uploading file: '' @ str_http_exception
                \<lparr>status_code = 400,
                 detail = ''File upload limit reached. Maximum 20 files allowed.''\<rparr>\<rparr>, w)
      else
        (case write_file name content w of
           (Inl e, w1) \<Rightarrow>
             (Inl \<lparr>status_code = 500, detail = ''Error uploading file: '' @ e\<rparr>, w1)
         | (Inr u, w1) \<Rightarrow>
             (case load_and_index_documents env
                     (Some (path_join (documents_dir (settings env)) name)) w1 of
                (Inl e, w2) \<Rightarrow>
                  (Inl \<lparr>status_code = 500, detail = ''Error uploading file: '' @ e\<rparr>, w2)
              | (Inr result, w2) \<Rightarrow>
                  (Inr \<lparr>up_message = ''File uploaded and indexed successfully'',
                        up_filename = name,
                        up_chunks = chunk_count result\<rparr>, w2))))"

section \<open>Test doubles\<close>

text \<open>
  Concrete collaborators on which the operations are run: a loader that returns a file's
  content as one document stamped with its path, a splitter that keeps every non-empty
  document as one chunk, an embedding of dimension three, a search that returns the first
  \<open>k\<close> stored points and a completion that answers with a fixed text.
\<close>

definition stub_settings :: settings where
  "stub_settings =
     \<lparr>qdrant_url = ''http://localhost:6333'', qdrant_api_key = ''secret'',
      google_api_key = ''secret'', collection_name = ''my_knowledge_base'',
      documents_dir = ''src/documents''\<rparr>"

definition loaded_document :: "string \<Rightarrow> string \<Rightarrow> document" where
  "loaded_document path content =
     \<lparr>page_content = content,
      metadata = \<lparr>md_source = Some path, md_filename = None, md_page = None\<rparr>\<rparr>"

definition stub_env :: env where
  "stub_env =
     \<lparr>settings = stub_settings,
      text_loader = (\<lambda>path dir.
         case map_of dir (basename path) of
           Some (File content) \<Rightarrow> Inr [loaded_document path content]
         | _ \<Rightarrow> Inl (''Error loading '' @ path)),
      pdf_loader = (\<lambda>path dir. Inl (''Error loading '' @ path)),
      directory_loader = (\<lambda>path dir.
         Inr (concat (map (\<lambda>(name, e).
           case e of
             File content \<Rightarrow> [loaded_document (path_join path name) content]
           | Directory \<Rightarrow> []) dir))),
      split_documents = filter (\<lambda>d. page_content d \<noteq> []),
      embed = (\<lambda>s. [0, 0, 0]),
      similarity = (\<lambda>question k stored. take (nat k) stored),
      completion = (\<lambda>context question. ''<p>See the documents.</p>'')\<rparr>"

text \<open>A stored point: a chunk with the metadata the indexing pipeline gives it.\<close>

definition chunk :: "string \<Rightarrow> string \<Rightarrow> document" where
  "chunk name content =
     \<lparr>page_content = content,
      metadata = \<lparr>md_source = Some (''src/documents/'' @ name),
                  md_filename = Some name, md_page = None\<rparr>\<rparr>"

text \<open>
  A running service whose directory holds \<open>notes.txt\<close> in a new version, while the index
  still holds the chunk of the old version.
\<close>

definition notes_world :: world where
  "notes_world =
     \<lparr>documents = [(''notes.txt'', File ''new text'')],
      vector_index = Some \<lparr>dim = 3, points = [chunk ''notes.txt'' ''old text''],
                            filename_index = True\<rparr>,
      vector_store = True, script = [], trace = []\<rparr>"

text \<open>A running service with an empty directory and no collection.\<close>

definition fresh_world :: world where
  "fresh_world =
     \<lparr>documents = [], vector_index = None, vector_store = True, script = [], trace = []\<rparr>"

text \<open>
  A running service whose index holds four chunks of three files, the first and the third
  of the same file, the last one \<open>250\<close> characters long.
\<close>

definition library_world :: world where
  "library_world =
     \<lparr>documents = [(''a.txt'', File ''alpha''), (''b.txt'', File ''beta'')],
      vector_index = Some \<lparr>dim = 3,
        points = [chunk ''a.txt'' ''alpha one'', chunk ''b.txt'' ''beta'',
                  chunk ''a.txt'' ''alpha two'', chunk ''c.txt'' (replicate 250 (CHR ''x''))],
        filename_index = True\<rparr>,
      vector_store = True, script = [], trace = []\<rparr>"

text \<open>A running service whose collection exists and holds no point.\<close>

definition empty_world :: world where
  "empty_world =
     \<lparr>documents = [],
      vector_index = Some \<lparr>dim = 3, points = [], filename_index = True\<rparr>,
      vector_store = True, script = [], trace = []\<rparr>"

text \<open>A running service whose directory holds twenty files, \<open>a.txt\<close> to \<open>t.txt\<close>.\<close>

definition full_world :: world where
  "full_world =
     \<lparr>documents = map (\<lambda>c. (c # ''.txt'', File ''text'')) ''abcdefghijklmnopqrst'',
      vector_index = Some \<lparr>dim = 3, points = [], filename_index = True\<rparr>,
      vector_store = True, script = [], trace = []\<rparr>"


section \<open>Error messages\<close>


text \<open>The index's own errors are recognised by the two substring tests of the service.\<close>

lemma is_missing_not_found: "is_missing_collection (not_found env)"
proof -
  have "not_found env =
        (''Not found: Collection `'' @ collection_name (settings env) @ ''` '')
        @ (''doesn'' @ [CHR 0x27] @ ''t exist'') @ ''!''"
    by (simp add: not_found_def)
  then have "sublist (''doesn'' @ [CHR 0x27] @ ''t exist'') (not_found env)"
    by (simp only: sublist_appendI)
  then show ?thesis
    by (simp only: is_missing_collection_def contains_def simp_thms)
qed



section \<open>What each remote call does to the world\<close>

lemma issue_fields [simp]:
  "fst (issue c w) = fault w"
  "documents (snd (issue c w)) = documents w"
  "vector_index (snd (issue c w)) = vector_index w"
  "vector_store (snd (issue c w)) = vector_store w"
  "script (snd (issue c w)) = tl (script w)"
  "trace (snd (issue c w)) = trace w @ [c]"
  by (simp_all add: issue_def)

lemma get_collections_frame [simp]:
  "documents (snd (get_collections env w)) = documents w"
  "vector_index (snd (get_collections env w)) = vector_index w"
  "vector_store (snd (get_collections env w)) = vector_store w"
  "script (snd (get_collections env w)) = tl (script w)"
  "trace (snd (get_collections env w)) = trace w @ [GetCollections]"
  by (simp_all add: get_collections_def case_prod_beta split: option.splits)

lemma get_collections_result:
  "fst (get_collections env w) =
     (case fault w of
        Some e \<Rightarrow> Inl e
      | None \<Rightarrow> Inr (case vector_index w of None \<Rightarrow> [] | Some c \<Rightarrow> [collection_name (settings env)]))"
  by (simp add: get_collections_def case_prod_beta split: option.splits)

lemma create_collection_frame [simp]:
  "documents (snd (create_collection env n w)) = documents w"
  "vector_store (snd (create_collection env n w)) = vector_store w"
  "script (snd (create_collection env n w)) = tl (script w)"
  "trace (snd (create_collection env n w)) = trace w @ [CreateCollection n]"
  by (simp_all add: create_collection_def case_prod_beta split: option.splits)

lemma create_collection_result:
  "fst (create_collection env n w) =
     (case fault w of
        Some e \<Rightarrow> Inl e
      | None \<Rightarrow> (case vector_index w of Some c \<Rightarrow> Inl (already_exists env) | None \<Rightarrow> Inr ()))"
  by (simp add: create_collection_def case_prod_beta split: option.splits)

lemma create_collection_index:
  "vector_index (snd (create_collection env n w)) =
     (if fault w = None \<and> vector_index w = None
      then Some \<lparr>dim = n, points = [], filename_index = False\<rparr>
      else vector_index w)"
  by (simp add: create_collection_def case_prod_beta split: option.splits)

lemma create_payload_index_frame [simp]:
  "documents (snd (create_payload_index env w)) = documents w"
  "vector_store (snd (create_payload_index env w)) = vector_store w"
  "script (snd (create_payload_index env w)) = tl (script w)"
  "trace (snd (create_payload_index env w)) = trace w @ [CreatePayloadIndex]"
  by (simp_all add: create_payload_index_def case_prod_beta split: option.splits)


lemma connect_store_frame [simp]:
  "documents (snd (connect_store w)) = documents w"
  "vector_index (snd (connect_store w)) = vector_index w"
  "vector_store (snd (connect_store w)) = vector_store w"
  "script (snd (connect_store w)) = tl (script w)"
  "trace (snd (connect_store w)) = trace w @ [ConnectStore]"
  by (simp_all add: connect_store_def case_prod_beta split: option.splits)


lemma delete_points_frame [simp]:
  "documents (snd (delete_points env name w)) = documents w"
  "vector_store (snd (delete_points env name w)) = vector_store w"
  "script (snd (delete_points env name w)) = tl (script w)"
  "trace (snd (delete_points env name w)) = trace w @ [DeletePoints name]"
  by (simp_all add: delete_points_def case_prod_beta split: option.splits)

lemma delete_points_result:
  "fst (delete_points env name w) =
     (case fault w of
        Some e \<Rightarrow> Inl e
      | None \<Rightarrow> (case vector_index w of None \<Rightarrow> Inl (not_found env) | Some c \<Rightarrow> Inr ()))"
  by (simp add: delete_points_def case_prod_beta split: option.splits)

lemma delete_points_index:
  "vector_index (snd (delete_points env name w)) =
     (if fault w = None
      then map_option (\<lambda>c. c\<lparr>points :=
             filter (\<lambda>p. md_filename (metadata p) \<noteq> Some name) (points c)\<rparr>) (vector_index w)
      else vector_index w)"
  by (simp add: delete_points_def case_prod_beta split: option.splits)

lemma add_documents_frame [simp]:
  "documents (snd (add_documents env docs w)) = documents w"
  "vector_store (snd (add_documents env docs w)) = vector_store w"
  "script (snd (add_documents env docs w)) = tl (script w)"
  "trace (snd (add_documents env docs w)) = trace w @ [AddDocuments docs]"
  by (simp_all add: add_documents_def case_prod_beta split: option.splits)

lemma add_documents_result:
  "fst (add_documents env docs w) =
     (case fault w of
        Some e \<Rightarrow> Inl e
      | None \<Rightarrow> (case vector_index w of None \<Rightarrow> Inl (not_found env) | Some c \<Rightarrow> Inr ()))"
  by (simp add: add_documents_def case_prod_beta split: option.splits)

lemma add_documents_index:
  "vector_index (snd (add_documents env docs w)) =
     (if fault w = None
      then map_option (\<lambda>c. c\<lparr>points := points c @ docs\<rparr>) (vector_index w)
      else vector_index w)"
  by (simp add: add_documents_def case_prod_beta split: option.splits)

lemma embed_query_frame [simp]:
  "documents (snd (embed_query env s w)) = documents w"
  "vector_index (snd (embed_query env s w)) = vector_index w"
  "vector_store (snd (embed_query env s w)) = vector_store w"
  "script (snd (embed_query env s w)) = tl (script w)"
  "trace (snd (embed_query env s w)) = trace w @ [EmbedQuery s]"
  by (simp_all add: embed_query_def case_prod_beta split: option.splits)

lemma embed_query_result:
  "fst (embed_query env s w) = (case fault w of Some e \<Rightarrow> Inl e | None \<Rightarrow> Inr (embed env s))"
  by (simp add: embed_query_def case_prod_beta split: option.splits)

lemma retriever_invoke_frame [simp]:
  "documents (snd (retriever_invoke env question k w)) = documents w"
  "vector_index (snd (retriever_invoke env question k w)) = vector_index w"
  "vector_store (snd (retriever_invoke env question k w)) = vector_store w"
  "script (snd (retriever_invoke env question k w)) = tl (script w)"
  "trace (snd (retriever_invoke env question k w)) = trace w @ [Retrieve question k]"
  by (simp_all add: retriever_invoke_def case_prod_beta split: option.splits)

lemma retriever_invoke_result:
  "fst (retriever_invoke env question k w) =
     (case fault w of
        Some e \<Rightarrow> Inl e
      | None \<Rightarrow> (case vector_index w of
                   None \<Rightarrow> Inl (not_found env)
                 | Some c \<Rightarrow> Inr (similarity env question k (points c))))"
  by (simp add: retriever_invoke_def case_prod_beta split: option.splits)

lemma chain_invoke_frame [simp]:
  "documents (snd (chain_invoke env context question w)) = documents w"
  "vector_index (snd (chain_invoke env context question w)) = vector_index w"
  "vector_store (snd (chain_invoke env context question w)) = vector_store w"
  "script (snd (chain_invoke env context question w)) = tl (script w)"
  "trace (snd (chain_invoke env context question w)) = trace w @ [ChainInvoke context question]"
  by (simp_all add: chain_invoke_def case_prod_beta split: option.splits)

lemma chain_invoke_result:
  "fst (chain_invoke env context question w) =
     (case fault w of Some e \<Rightarrow> Inl e | None \<Rightarrow> Inr (completion env context question))"
  by (simp add: chain_invoke_def case_prod_beta split: option.splits)

section \<open>The reference loop\<close>

text \<open>The filenames of a list in the order of their first occurrence.\<close>

lemma first_occurrences_Cons:
  "rev (remdups (rev (x # xs))) = x # filter (\<lambda>y. y \<noteq> x) (rev (remdups (rev xs)))"
proof -
  have "remdups (ys @ [x]) = filter (\<lambda>y. y \<noteq> x) (remdups ys) @ [x]" for ys :: "'a list"
    by (induction ys) auto
  then show ?thesis by (simp add: rev_filter)
qed

lemma references_loop_acc:
  "references_loop ds refs seen = refs @ references_loop ds [] seen"
proof (induction ds arbitrary: refs seen)
  case Nil
  show ?case by simp
next
  case (Cons d ds)
  show ?case
    using Cons.IH [of "refs @ [make_reference d]" "insert (doc_filename d) seen"]
          Cons.IH [of "[make_reference d]" "insert (doc_filename d) seen"]
          Cons.IH [of refs seen]
    by simp
qed

lemma references_loop_spec:
  "references_loop ds [] seen =
     map (\<lambda>f. make_reference (the (find (\<lambda>d. doc_filename d = f) ds)))
       (filter (\<lambda>f. f \<notin> seen) (rev (remdups (rev (map doc_filename ds)))))"
proof (induction ds arbitrary: seen)
  case Nil
  show ?case by simp
next
  case (Cons d ds)
  let ?f = "doc_filename d"
  let ?fo = "rev (remdups (rev (map doc_filename ds)))"
  have fo: "rev (remdups (rev (map doc_filename (d # ds)))) = ?f # filter (\<lambda>y. y \<noteq> ?f) ?fo"
    using first_occurrences_Cons [of ?f "map doc_filename ds"] by simp
  have later: "map (\<lambda>f. make_reference (the (find (\<lambda>x. doc_filename x = f) (d # ds)))) fs =
               map (\<lambda>f. make_reference (the (find (\<lambda>x. doc_filename x = f) ds))) fs"
    if "?f \<notin> set fs" for fs
    using that by (induction fs) auto
  show ?case
  proof (cases "?f \<in> seen")
    case True
    have same: "filter (\<lambda>f. f \<notin> seen) (filter (\<lambda>y. y \<noteq> ?f) ?fo) = filter (\<lambda>f. f \<notin> seen) ?fo"
      using True by (auto intro: filter_cong)
    have notin: "?f \<notin> set (filter (\<lambda>f. f \<notin> seen) ?fo)"
      using True by simp
    have "references_loop (d # ds) [] seen = references_loop ds [] seen"
      using True by simp
    also have "\<dots> = map (\<lambda>f. make_reference (the (find (\<lambda>x. doc_filename x = f) ds)))
                        (filter (\<lambda>f. f \<notin> seen) ?fo)"
      by (rule Cons.IH)
    also have "\<dots> = map (\<lambda>f. make_reference (the (find (\<lambda>x. doc_filename x = f) (d # ds))))
                        (filter (\<lambda>f. f \<notin> seen) ?fo)"
      using later [OF notin] by simp
    also have "filter (\<lambda>f. f \<notin> seen) ?fo =
               filter (\<lambda>f. f \<notin> seen) (rev (remdups (rev (map doc_filename (d # ds)))))"
      using True same by (simp only: fo filter.simps if_False simp_thms)
    finally show ?thesis .
  next
    case False
    have same: "filter (\<lambda>f. f \<notin> seen) (filter (\<lambda>y. y \<noteq> ?f) ?fo) =
                filter (\<lambda>f. f \<notin> insert ?f seen) ?fo"
      by (auto intro: filter_cong)
    have notin: "?f \<notin> set (filter (\<lambda>f. f \<notin> insert ?f seen) ?fo)"
      by simp
    have "references_loop (d # ds) [] seen =
          make_reference d # references_loop ds [] (insert ?f seen)"
      using False references_loop_acc [of ds "[make_reference d]" "insert ?f seen"] by simp
    also have "references_loop ds [] (insert ?f seen) =
               map (\<lambda>f. make_reference (the (find (\<lambda>x. doc_filename x = f) ds)))
                 (filter (\<lambda>f. f \<notin> insert ?f seen) ?fo)"
      by (rule Cons.IH)
    also have "\<dots> = map (\<lambda>f. make_reference (the (find (\<lambda>x. doc_filename x = f) (d # ds))))
                        (filter (\<lambda>f. f \<notin> insert ?f seen) ?fo)"
      using later [OF notin] by simp
    also have "make_reference d # \<dots> =
               map (\<lambda>f. make_reference (the (find (\<lambda>x. doc_filename x = f) (d # ds))))
                 (?f # filter (\<lambda>f. f \<notin> insert ?f seen) ?fo)"
      by simp
    also have "?f # filter (\<lambda>f. f \<notin> insert ?f seen) ?fo =
               filter (\<lambda>f. f \<notin> seen) (rev (remdups (rev (map doc_filename (d # ds)))))"
      using False same by (simp only: fo filter.simps if_True simp_thms)
    finally show ?thesis .
  qed
qed

lemma references_loop_filenames:
  "map ref_filename (references_loop ds [] {}) = rev (remdups (rev (map doc_filename ds)))"
proof -
  have "ref_filename (make_reference (the (find (\<lambda>d. doc_filename d = f) ds))) = f"
    if "f \<in> set (map doc_filename ds)" for f
  proof -
    from that obtain d where "find (\<lambda>d. doc_filename d = f) ds = Some d"
      by (cases "find (\<lambda>d. doc_filename d = f) ds") (auto simp: find_None_iff)
    moreover from this have "doc_filename d = f"
      by (auto simp: find_Some_iff)
    ultimately show ?thesis by (simp add: make_reference_def)
  qed
  then have "map (\<lambda>f. ref_filename (make_reference (the (find (\<lambda>d. doc_filename d = f) ds))))
               (rev (remdups (rev (map doc_filename ds)))) =
             rev (remdups (rev (map doc_filename ds)))"
    by (intro map_idI) simp
  then show ?thesis
    by (simp add: references_loop_spec o_def)
qed

lemma references_loop_distinct: "distinct (map ref_filename (references_loop ds [] {}))"
  by (simp add: references_loop_filenames)

lemma references_loop_elems:
  assumes "x \<in> set (references_loop ds [] {})"
  shows "\<exists>d. find (\<lambda>d. doc_filename d = ref_filename x) ds = Some d \<and> x = make_reference d"
proof -
  from assms obtain f where f: "f \<in> set (map doc_filename ds)"
    and x: "x = make_reference (the (find (\<lambda>d. doc_filename d = f) ds))"
    by (auto simp: references_loop_spec)
  from f obtain d where d: "find (\<lambda>d. doc_filename d = f) ds = Some d"
    by (cases "find (\<lambda>d. doc_filename d = f) ds") (auto simp: find_None_iff)
  then have "doc_filename d = f"
    by (auto simp: find_Some_iff)
  with d x show ?thesis
    by (simp add: make_reference_def)
qed

lemma preview_length: "length (preview content) \<le> 203"
  by (simp add: preview_def)

lemma preview_cases:
  "preview content =
     (if length content \<le> 200 then content else take 200 content @ ''...'')"
  by (simp add: preview_def)

section \<open>Query\<close>

lemma query_references_cases:
  assumes "fst (query env question k w) = Inr r"
  shows "references r = [] \<or> (\<exists>docs. references r = references_loop docs [] {})"
  using assms
  by (auto simp: query_def case_prod_beta no_documents_response_def no_information_response_def
           split: sum.splits if_splits)

text \<open>
  Once the similarity search has returned, the rest of \<open>query\<close> is determined by the
  retrieved chunks and the completion.
\<close>

lemma query_searched:
  assumes "vector_store w"
    and "fst (retriever_invoke env question k (snd (get_collections env w))) = Inr docs"
  shows "query env question k w =
     (if docs = []
      then (Inr no_information_response,
            snd (retriever_invoke env question k (snd (get_collections env w))))
      else (case chain_invoke env (build_context docs) question
                   (snd (retriever_invoke env question k (snd (get_collections env w)))) of
              (Inl e, w3) \<Rightarrow> (Inl e, w3)
            | (Inr a, w3) \<Rightarrow>
                (Inr \<lparr>answer = a, references = references_loop docs [] {},
                      context_used = length docs\<rparr>, w3)))"
proof -
  from assms(2) have "vector_index w \<noteq> None"
    by (auto simp: retriever_invoke_result split: option.splits)
  then have "\<not> (case fst (get_collections env w) of
                  Inr collection_names \<Rightarrow> collection_name (settings env) \<notin> set collection_names
                | Inl e \<Rightarrow> False)"
    by (auto simp: get_collections_result split: option.splits)
  then show ?thesis
    using assms by (simp add: query_def case_prod_beta)
qed

lemma query_references_searched:
  assumes "vector_store w"
    and "fst (retriever_invoke env question k (snd (get_collections env w))) = Inr docs"
    and "fst (query env question k w) = Inr r"
  shows "references r = references_loop docs [] {}"
  using assms(3) unfolding query_searched [OF assms(1,2)]
  by (auto simp: case_prod_beta no_information_response_def split: if_splits sum.splits)

text \<open>Unfolding the operations on the test doubles.\<close>

lemmas stub_defs =
  stub_env_def stub_settings_def chunk_def loaded_document_def fault_def

lemmas query_eval =
  query_def case_prod_beta get_collections_result retriever_invoke_result chain_invoke_result
  build_context_def doc_filename_def doc_source_def doc_page_def make_reference_def preview_def

text \<open>
  C9. Whenever the similarity search of a query returns (the service runs, the search call
  yields the chunks \<open>docs\<close>) and the query returns a result, its \<open>context_used\<close> is the number
  of retrieved chunks, counted before the references are de-duplicated, whatever the
  filenames of the chunks are.
\<close>

theorem query_context_used:
  assumes "vector_store w"
    and "fst (retriever_invoke env question k (snd (get_collections env w))) = Inr docs"
    and "fst (query env question k w) = Inr r"
  shows "context_used r = length docs"
  using assms(3) unfolding query_searched [OF assms(1,2)]
  by (auto simp: case_prod_beta no_information_response_def split: if_splits sum.splits)

theorem query_context_used_witness:
  "\<exists>r. fst (query stub_env ''which file?'' 4 library_world) = Inr r
       \<and> context_used r = 4 \<and> length (references r) = 3"
proof -
  let ?docs = "[chunk ''a.txt'' ''alpha one'', chunk ''b.txt'' ''beta'',
                chunk ''a.txt'' ''alpha two'', chunk ''c.txt'' (replicate 250 (CHR ''x''))]"
  have s: "vector_store library_world"
    by (simp add: library_world_def)
  have d: "fst (retriever_invoke stub_env ''which file?'' 4
                 (snd (get_collections stub_env library_world))) = Inr ?docs"
    by (simp add: retriever_invoke_result library_world_def stub_defs)
  obtain r where q: "fst (query stub_env ''which file?'' 4 library_world) = Inr r"
    and n: "length (references r) = 3"
    by (simp add: query_eval library_world_def stub_defs)
  from query_context_used [OF s d q] have c: "context_used r = 4"
    by simp
  show ?thesis
    apply (rule exI [of _ r])
    using q c n by simp
qed

text \<open>
  C3. The filenames of the references of a query result are pairwise distinct. When the
  similarity search returned \<open>docs\<close>, the references list the filenames of \<open>docs\<close> in the
  order of their first occurrence, and the entry of a filename is built from the first
  chunk of \<open>docs\<close> with that filename: its identifier is the filename, its source is the
  chunk's source (\<open>unknown\<close> when absent), its page is the chunk's page (\<open>0\<close> when absent)
  and its preview is the preview of the chunk's text.
\<close>

theorem query_references_deduplicated:
  "(fst (query env question k w) = Inr r \<longrightarrow> distinct (map ref_filename (references r)))
   \<and> (vector_store w
        \<longrightarrow> fst (retriever_invoke env question k (snd (get_collections env w))) = Inr docs
        \<longrightarrow> fst (query env question k w) = Inr r
        \<longrightarrow> map ref_filename (references r) = rev (remdups (rev (map doc_filename docs)))
          \<and> (\<forall>x \<in> set (references r).
                \<exists>d. find (\<lambda>d. doc_filename d = ref_filename x) docs = Some d
                  \<and> ref_id x = ref_filename x
                  \<and> ref_source x = (case md_source (metadata d) of Some s \<Rightarrow> s | None \<Rightarrow> ''unknown'')
                  \<and> ref_page x = (case md_page (metadata d) of Some p \<Rightarrow> p | None \<Rightarrow> 0)
                  \<and> ref_preview x = preview (page_content d)))"
proof (intro conjI impI)
  assume "fst (query env question k w) = Inr r"
  from query_references_cases [OF this]
  show "distinct (map ref_filename (references r))"
    by (auto simp: references_loop_distinct)
next
  assume a: "vector_store w"
    "fst (retriever_invoke env question k (snd (get_collections env w))) = Inr docs"
    "fst (query env question k w) = Inr r"
  have refs: "references r = references_loop docs [] {}"
    using a by (rule query_references_searched)
  show "map ref_filename (references r) = rev (remdups (rev (map doc_filename docs)))"
    by (simp add: refs references_loop_filenames)
  show "\<forall>x \<in> set (references r).
          \<exists>d. find (\<lambda>d. doc_filename d = ref_filename x) docs = Some d
            \<and> ref_id x = ref_filename x
            \<and> ref_source x = (case md_source (metadata d) of Some s \<Rightarrow> s | None \<Rightarrow> ''unknown'')
            \<and> ref_page x = (case md_page (metadata d) of Some p \<Rightarrow> p | None \<Rightarrow> 0)
            \<and> ref_preview x = preview (page_content d)"
  proof
    fix x assume "x \<in> set (references r)"
    then obtain d where "find (\<lambda>d. doc_filename d = ref_filename x) docs = Some d"
      and "x = make_reference d"
      using references_loop_elems [of x docs] by (auto simp: refs)
    then show "\<exists>d. find (\<lambda>d. doc_filename d = ref_filename x) docs = Some d
            \<and> ref_id x = ref_filename x
            \<and> ref_source x = (case md_source (metadata d) of Some s \<Rightarrow> s | None \<Rightarrow> ''unknown'')
            \<and> ref_page x = (case md_page (metadata d) of Some p \<Rightarrow> p | None \<Rightarrow> 0)
            \<and> ref_preview x = preview (page_content d)"
      by (simp add: make_reference_def doc_source_def doc_page_def)
  qed
qed

theorem query_references_deduplicated_witness:
  "\<exists>r. fst (query stub_env ''which file?'' 4 library_world) = Inr r
       \<and> map ref_filename (references r) = [''a.txt'', ''b.txt'', ''c.txt'']
       \<and> distinct (map ref_filename (references r))
       \<and> ref_preview (hd (references r)) = ''alpha one''"
proof -
  let ?docs = "[chunk ''a.txt'' ''alpha one'', chunk ''b.txt'' ''beta'',
                chunk ''a.txt'' ''alpha two'', chunk ''c.txt'' (replicate 250 (CHR ''x''))]"
  have s: "vector_store library_world"
    by (simp add: library_world_def)
  have d: "fst (retriever_invoke stub_env ''which file?'' 4
                 (snd (get_collections stub_env library_world))) = Inr ?docs"
    by (simp add: retriever_invoke_result library_world_def stub_defs)
  obtain r where q: "fst (query stub_env ''which file?'' 4 library_world) = Inr r"
    and p: "ref_preview (hd (references r)) = ''alpha one''"
    by (simp add: query_eval library_world_def stub_defs)
  have d1: "distinct (map ref_filename (references r))"
    using query_references_deduplicated [THEN conjunct1, rule_format, OF q] .
  have d2: "map ref_filename (references r) = rev (remdups (rev (map doc_filename ?docs)))"
    using query_references_deduplicated
            [THEN conjunct2, THEN mp, THEN mp, THEN mp, OF s d q, THEN conjunct1] .
  have f: "rev (remdups (rev (map doc_filename ?docs))) = [''a.txt'', ''b.txt'', ''c.txt'']"
    by (simp add: doc_filename_def chunk_def)
  show ?thesis
    apply (rule exI [of _ r])
    using q d2 d1 p f by simp
qed

text \<open>
  C7. When the similarity search returned \<open>docs\<close>, the preview of every reference of the
  query result is computed from the text of the first chunk of \<open>docs\<close> with the reference's
  filename: it is that text when the text has at most \<open>200\<close> characters, and otherwise its
  first \<open>200\<close> characters followed by three dots. The preview of every reference of every
  query result has at most \<open>203\<close> characters.
\<close>

theorem query_preview:
  "(fst (query env question k w) = Inr r
      \<longrightarrow> (\<forall>x \<in> set (references r). length (ref_preview x) \<le> 203))
   \<and> (vector_store w
        \<longrightarrow> fst (retriever_invoke env question k (snd (get_collections env w))) = Inr docs
        \<longrightarrow> fst (query env question k w) = Inr r
        \<longrightarrow> (\<forall>x \<in> set (references r).
                \<exists>d. find (\<lambda>d. doc_filename d = ref_filename x) docs = Some d
                  \<and> ref_preview x =
                      (if length (page_content d) \<le> 200 then page_content d
                       else take 200 (page_content d) @ ''...'')))"
proof (intro conjI impI ballI)
  fix x
  assume "fst (query env question k w) = Inr r" and x: "x \<in> set (references r)"
  from query_references_cases [OF this(1)] x
  obtain ds where "x \<in> set (references_loop ds [] {})"
    by auto
  from references_loop_elems [OF this]
  show "length (ref_preview x) \<le> 203"
    by (auto simp: make_reference_def preview_length)
next
  fix x
  assume a: "vector_store w"
    "fst (retriever_invoke env question k (snd (get_collections env w))) = Inr docs"
    "fst (query env question k w) = Inr r"
    and "x \<in> set (references r)"
  then have "x \<in> set (references_loop docs [] {})"
    using query_references_searched [OF a] by simp
  from references_loop_elems [OF this]
  show "\<exists>d. find (\<lambda>d. doc_filename d = ref_filename x) docs = Some d
          \<and> ref_preview x =
              (if length (page_content d) \<le> 200 then page_content d
               else take 200 (page_content d) @ ''...'')"
    by (auto simp: make_reference_def preview_cases)
qed

theorem query_preview_witness:
  "\<exists>r. fst (query stub_env ''which file?'' 4 library_world) = Inr r
       \<and> map ref_preview (references r) =
           [''alpha one'', ''beta'', replicate 200 (CHR ''x'') @ ''...'']
       \<and> list_all (\<lambda>x. length (ref_preview x) \<le> 203) (references r)"
proof -
  obtain r where q: "fst (query stub_env ''which file?'' 4 library_world) = Inr r"
    and p: "map ref_preview (references r) =
              [''alpha one'', ''beta'', replicate 200 (CHR ''x'') @ ''...'']"
    by (simp add: query_eval library_world_def stub_defs)
  have "\<forall>x \<in> set (references r). length (ref_preview x) \<le> 203"
    using query_preview [THEN conjunct1, THEN mp, OF q] .
  then have l: "list_all (\<lambda>x. length (ref_preview x) \<le> 203) (references r)"
    by (simp only: list_all_iff)
  show ?thesis
    apply (rule exI [of _ r])
    using q p l by simp
qed

text \<open>
  C2. In a running service, a query on a collection that does not exist returns, as a
  normal result, the fixed answer that no documents are indexed, whenever the index
  answers the listing call or the search call (an exception can only come from a transport
  failure of both); and a query whose similarity search returns no chunk returns, as a
  normal result, the fixed answer that nothing relevant was found. Both fixed results have
  a non-empty answer, no references and \<open>context_used = 0\<close>, for every question and \<open>k\<close>.
\<close>

theorem query_fixed_answers:
  "(vector_store w \<longrightarrow> vector_index w = None
      \<longrightarrow> (fault w = None \<or> fault (snd (get_collections env w)) = None)
      \<longrightarrow> fst (query env question k w) = Inr no_documents_response)
   \<and> (vector_store w
      \<longrightarrow> fst (retriever_invoke env question k (snd (get_collections env w))) = Inr []
      \<longrightarrow> fst (query env question k w) = Inr no_information_response)
   \<and> answer no_documents_response \<noteq> [] \<and> references no_documents_response = []
   \<and> context_used no_documents_response = 0
   \<and> answer no_information_response \<noteq> [] \<and> references no_information_response = []
   \<and> context_used no_information_response = 0"
proof (intro conjI impI)
  assume s: "vector_store w" and i: "vector_index w = None"
    and f: "fault w = None \<or> fault (snd (get_collections env w)) = None"
  show "fst (query env question k w) = Inr no_documents_response"
  proof (cases "fault w")
    case None
    with s i show ?thesis
      by (simp add: query_def case_prod_beta get_collections_result)
  next
    case (Some e)
    with f have "fault (snd (get_collections env w)) = None"
      by simp
    with s i Some show ?thesis
      by (simp add: query_def case_prod_beta get_collections_result retriever_invoke_result
                    is_missing_not_found)
  qed
next
  assume "vector_store w"
    and "fst (retriever_invoke env question k (snd (get_collections env w))) = Inr []"
  from query_searched [OF this]
  show "fst (query env question k w) = Inr no_information_response"
    by simp
qed (simp_all add: no_documents_response_def no_information_response_def)

theorem query_fixed_answers_witness:
  "fst (query stub_env ''which file?'' 4 fresh_world) = Inr no_documents_response
   \<and> fst (query stub_env ''which file?'' 4 (fresh_world\<lparr>script := [Some ''timed out'']\<rparr>))
       = Inr no_documents_response
   \<and> fst (query stub_env ''which file?'' 4 empty_world) = Inr no_information_response"
proof -
  let ?late = "fresh_world\<lparr>script := [Some ''timed out'']\<rparr>"
  have a: "vector_store fresh_world" "vector_index fresh_world = None"
    "fault fresh_world = None \<or> fault (snd (get_collections stub_env fresh_world)) = None"
    by (simp_all add: fresh_world_def fault_def)
  have b: "vector_store ?late" "vector_index ?late = None"
    "fault ?late = None \<or> fault (snd (get_collections stub_env ?late)) = None"
    by (simp_all add: fresh_world_def fault_def)
  have c: "vector_store empty_world"
    "fst (retriever_invoke stub_env ''which file?'' 4
           (snd (get_collections stub_env empty_world))) = Inr []"
    by (simp_all add: empty_world_def retriever_invoke_result stub_defs)
  show ?thesis
    using query_fixed_answers [THEN conjunct1, rule_format, OF a]
          query_fixed_answers [THEN conjunct1, rule_format, OF b]
          query_fixed_answers [THEN conjunct2, THEN conjunct1, rule_format, OF c]
    by (intro conjI)
qed

section \<open>Indexing\<close>

text \<open>
  The remote calls of the block that adds to the vector store: the filtered delete in the
  single-file variant, the insertion, and what the handler issues after it.
\<close>

lemma trace_add_to_vector_store:
  "\<exists>rest. trace (snd (add_to_vector_store env file_path docs w)) =
     trace w @ (if truthy file_path then [DeletePoints (basename (the file_path))] else [])
       @ AddDocuments docs # rest
     \<and> (\<forall>n. CreateCollection n \<in> set rest \<longrightarrow> n = length (embed env ''test''))"
  by (auto simp: add_to_vector_store_def Let_def case_prod_beta embed_query_result
           split: sum.splits option.splits)

text \<open>After a filtered delete that did not raise, a successful run leaves the new chunks only.\<close>

lemma add_to_vector_store_replaces:
  assumes "truthy file_path"
    and "fst (delete_points env (basename (the file_path)) w) = Inr ()"
    and "fst (add_to_vector_store env file_path docs w) = Inr ()"
  shows "\<exists>c. vector_index w = Some c
           \<and> vector_index (snd (add_to_vector_store env file_path docs w)) =
               Some (c\<lparr>points :=
                 filter (\<lambda>q. md_filename (metadata q) \<noteq> Some (basename (the file_path))) (points c)
                 @ docs\<rparr>)"
proof -
  let ?name = "basename (the file_path)"
  let ?w1 = "snd (delete_points env ?name w)"
  from assms(2) obtain c where f: "fault w = None" and c: "vector_index w = Some c"
    by (auto simp: delete_points_result split: option.splits)
  let ?c1 = "c\<lparr>points := filter (\<lambda>q. md_filename (metadata q) \<noteq> Some ?name) (points c)\<rparr>"
  have i1: "vector_index ?w1 = Some ?c1"
    using f c by (simp add: delete_points_index)
  have "vector_index (snd (add_to_vector_store env file_path docs w)) =
          Some (?c1\<lparr>points := points ?c1 @ docs\<rparr>)"
    using assms(1,3) i1
    by (auto simp: add_to_vector_store_def Let_def case_prod_beta
                   add_documents_result add_documents_index
                   create_collection_result create_collection_index embed_query_result
             split: sum.splits option.splits if_splits)
  with c show ?thesis by simp
qed

lemma load_and_index_documents_stored:
  assumes "load_raw env file_path w = Inr loaded"
    and "docs = split_documents env (map (stamp file_path) loaded)"
    and "vector_store w" and "docs \<noteq> []"
  shows "snd (load_and_index_documents env file_path w) =
           snd (add_to_vector_store env file_path docs w)"
    and "fst (load_and_index_documents env file_path w) = Inr res \<Longrightarrow>
           fst (add_to_vector_store env file_path docs w) = Inr ()"
  using assms
  by (auto simp: load_and_index_documents_def Let_def case_prod_beta split: sum.splits)

lemma stub_paths:
  "path_join ''src/documents'' ''notes.txt'' = ''src/documents/notes.txt''"
  "basename ''src/documents/notes.txt'' = ''notes.txt''"
  "\<not> endswith ''src/documents/notes.txt'' ''.pdf''"
  by (simp_all add: path_join_def basename_def startswith_def endswith_def suffix_to_prefix)

lemmas index_eval =
  load_and_index_documents_def load_raw_def add_to_vector_store_def stamp_def truthy_def
  Let_def case_prod_beta add_documents_result add_documents_index
  delete_points_result delete_points_index stub_paths

text \<open>
  C1, as stated, fails on the code. Indexing the whole directory (the start-up path of
  \<open>main.py\<close>) issues no delete at all: the chunk of the old version of \<open>notes.txt\<close> stays in
  the index next to the chunk of the new version. In the single-file variant a delete that
  raises is reduced to a warning, and the insertion goes ahead: again both versions are in
  the index.
\<close>

theorem reindex_keeps_old_points:
  "vector_index (snd (load_and_index_documents stub_env None notes_world)) =
     Some \<lparr>dim = 3,
           points = [chunk ''notes.txt'' ''old text'', chunk ''notes.txt'' ''new text''],
           filename_index = True\<rparr>
   \<and> trace (snd (load_and_index_documents stub_env None notes_world)) =
       [AddDocuments [chunk ''notes.txt'' ''new text'']]
   \<and> vector_index (snd (load_and_index_documents stub_env (Some ''src/documents/notes.txt'')
                          (notes_world\<lparr>script := [Some ''timed out'']\<rparr>))) =
       Some \<lparr>dim = 3,
             points = [chunk ''notes.txt'' ''old text'', chunk ''notes.txt'' ''new text''],
             filename_index = True\<rparr>"
  by (simp add: index_eval notes_world_def stub_defs)

text \<open>
  C1, amended. In a running service, indexing a single file \<open>p\<close> that yields at least one
  chunk issues the filtered delete for \<open>basename p\<close> first and the insertion of the new
  chunks right after it, whatever the index holds for that filename. When that delete does
  not raise and the indexing returns normally, the collection holds afterwards its former
  points without those carrying the filename, followed by the new chunks: no point of the
  older version is left.
\<close>

theorem reindex_file_replaces_points:
  assumes "p \<noteq> []" and "vector_store w"
    and "load_raw env (Some p) w = Inr loaded"
    and "docs = split_documents env (map (stamp (Some p)) loaded)"
    and "docs \<noteq> []"
  shows "(\<exists>rest. trace (snd (load_and_index_documents env (Some p) w)) =
            trace w @ DeletePoints (basename p) # AddDocuments docs # rest)
    \<and> (fst (delete_points env (basename p) w) = Inr ()
        \<longrightarrow> fst (load_and_index_documents env (Some p) w) = Inr res
        \<longrightarrow> (\<exists>c. vector_index w = Some c
              \<and> vector_index (snd (load_and_index_documents env (Some p) w)) =
                  Some (c\<lparr>points :=
                    filter (\<lambda>q. md_filename (metadata q) \<noteq> Some (basename p)) (points c)
                    @ docs\<rparr>)))"
proof (intro conjI impI)
  have t: "truthy (Some p)"
    using assms(1) by (simp add: truthy_def)
  note stored = load_and_index_documents_stored [OF assms(3,4,2,5)]
  from trace_add_to_vector_store [of env "Some p" docs w] t
  show "\<exists>rest. trace (snd (load_and_index_documents env (Some p) w)) =
            trace w @ DeletePoints (basename p) # AddDocuments docs # rest"
    by (auto simp: stored(1))
  assume d: "fst (delete_points env (basename p) w) = Inr ()"
    and r: "fst (load_and_index_documents env (Some p) w) = Inr res"
  from add_to_vector_store_replaces [of "Some p" env w docs] t d stored(2) [OF r]
  show "\<exists>c. vector_index w = Some c
          \<and> vector_index (snd (load_and_index_documents env (Some p) w)) =
              Some (c\<lparr>points :=
                filter (\<lambda>q. md_filename (metadata q) \<noteq> Some (basename p)) (points c)
                @ docs\<rparr>)"
    by (simp add: stored(1))
qed

theorem reindex_file_replaces_points_witness:
  "trace (snd (load_and_index_documents stub_env (Some ''src/documents/notes.txt'') notes_world)) =
     [DeletePoints ''notes.txt'', AddDocuments [chunk ''notes.txt'' ''new text'']]
   \<and> vector_index (snd (load_and_index_documents stub_env (Some ''src/documents/notes.txt'')
                          notes_world)) =
       Some \<lparr>dim = 3, points = [chunk ''notes.txt'' ''new text''], filename_index = True\<rparr>"
proof -
  let ?p = "''src/documents/notes.txt''"
  let ?new = "chunk ''notes.txt'' ''new text''"
  let ?old = "\<lparr>dim = 3, points = [chunk ''notes.txt'' ''old text''], filename_index = True\<rparr>"
  let ?w' = "snd (load_and_index_documents stub_env (Some ?p) notes_world)"
  have a: "?p \<noteq> []" "vector_store notes_world"
    "load_raw stub_env (Some ?p) notes_world = Inr [loaded_document ?p ''new text'']"
    "[?new] = split_documents stub_env (map (stamp (Some ?p)) [loaded_document ?p ''new text''])"
    "[?new] \<noteq> []"
    by (simp_all add: index_eval notes_world_def stub_defs)
  have d: "fst (delete_points stub_env (basename ?p) notes_world) = Inr ()"
    by (simp add: index_eval notes_world_def stub_defs)
  have r: "fst (load_and_index_documents stub_env (Some ?p) notes_world) =
             Inr \<lparr>raw_count = 1, chunk_count = 1, files = {''notes.txt''}\<rparr>"
    by (simp add: index_eval notes_world_def stub_defs)
  have i: "vector_index notes_world = Some ?old"
    by (simp add: notes_world_def)
  note at_notes = reindex_file_replaces_points [OF a]
  from at_notes [THEN conjunct2, rule_format, OF d r] i
  have 1: "vector_index ?w' = Some \<lparr>dim = 3, points = [?new], filename_index = True\<rparr>"
    by (simp add: stub_paths chunk_def)
  have 2: "trace ?w' = [DeletePoints ''notes.txt'', AddDocuments [?new]]"
    by (simp add: index_eval notes_world_def stub_defs)
  from 2 1 show ?thesis by (intro conjI)
qed

section \<open>Collection bootstrap\<close>




section \<open>Upload\<close>

lemma length_get_document_list:
  "length (get_document_list env w) =
     length (filter (\<lambda>(name, e). e \<noteq> Directory) (documents w))"
proof -
  have "length (concat (map (\<lambda>(name, e).
           case e of
             File content \<Rightarrow>
               [\<lparr>di_filename = name, di_path = path_join d name, di_size = length content\<rparr>]
           | Directory \<Rightarrow> []) al)) =
        length (filter (\<lambda>(name, e). e \<noteq> Directory) al)" for d al
    by (induction al) (auto split: entry.splits)
  then show ?thesis
    by (simp add: get_document_list_def)
qed

text \<open>At the cap the route raises before it touches the directory or the service.\<close>

lemma upload_file_at_cap:
  assumes "20 \<le> length (get_document_list env w)"
  shows "upload_file env name content w =
     (Inl \<lparr>status_code = 500,
           detail = ''Error uploading file: '' @ str_http_exception
             \<lparr>status_code = 400,
              detail = ''File upload limit reached. Maximum 20 files allowed.''\<rparr>\<rparr>, w)"
  using assms by (simp add: upload_file_def Let_def)

text \<open>Indexing never touches the documents directory.\<close>

lemma documents_add_to_vector_store [simp]:
  "documents (snd (add_to_vector_store env file_path docs w)) = documents w"
  by (simp add: add_to_vector_store_def Let_def case_prod_beta split: sum.splits)

lemma documents_load_and_index_documents [simp]:
  "documents (snd (load_and_index_documents env file_path w)) = documents w"
  by (simp add: load_and_index_documents_def Let_def case_prod_beta split: sum.splits)

lemma upload_file_below_cap:
  assumes "length (get_document_list env w) < 20"
    and "map_of (documents w) name = Some (File old)"
  shows "documents (snd (upload_file env name content w)) =
           AList.update name (File content) (documents w)"
  using assms
  by (simp add: upload_file_def write_file_def Let_def case_prod_beta split: sum.splits)

text \<open>
  C5. When the documents directory already holds \<open>20\<close> or more files, an upload is
  rejected with an HTTP error and the world is left as it was: no file is written, the
  vector index is not touched, no remote call is issued. Below the cap, an upload under the
  name of an existing file replaces the content of that file and leaves the other entries
  of the directory alone, whatever the indexing that follows does.
\<close>

theorem upload_cap:
  "(20 \<le> length (get_document_list env w)
      \<longrightarrow> (\<exists>d. fst (upload_file env name content w) = Inl \<lparr>status_code = 500, detail = d\<rparr>)
        \<and> snd (upload_file env name content w) = w)
   \<and> (length (get_document_list env w) < 20 \<longrightarrow> map_of (documents w) name = Some (File old)
      \<longrightarrow> map_of (documents (snd (upload_file env name content w))) =
            (map_of (documents w))(name \<mapsto> File content))"
proof (intro conjI impI)
  assume "20 \<le> length (get_document_list env w)"
  from upload_file_at_cap [OF this]
  show "\<exists>d. fst (upload_file env name content w) = Inl \<lparr>status_code = 500, detail = d\<rparr>"
    and "snd (upload_file env name content w) = w"
    by simp_all
next
  assume "length (get_document_list env w) < 20"
    and "map_of (documents w) name = Some (File old)"
  from upload_file_below_cap [OF this]
  show "map_of (documents (snd (upload_file env name content w))) =
          (map_of (documents w))(name \<mapsto> File content)"
    by (simp add: update_conv')
qed

lemma full_world_count: "length (get_document_list env full_world) = 20"
  by (simp add: length_get_document_list full_world_def)

theorem upload_cap_witness:
  "snd (upload_file stub_env ''u.txt'' ''more text'' full_world) = full_world
   \<and> (\<exists>d. fst (upload_file stub_env ''u.txt'' ''more text'' full_world) =
            Inl \<lparr>status_code = 500, detail = d\<rparr>)
   \<and> map_of (documents (snd (upload_file stub_env ''notes.txt'' ''newer text'' notes_world)))
       ''notes.txt'' = Some (File ''newer text'')"
proof -
  have a: "20 \<le> length (get_document_list stub_env full_world)"
    by (simp add: full_world_count)
  have b: "length (get_document_list stub_env notes_world) < 20"
    "map_of (documents notes_world) ''notes.txt'' = Some (File ''new text'')"
    by (simp_all add: length_get_document_list notes_world_def)
  from upload_cap [THEN conjunct1, rule_format, OF a]
  have 1: "\<exists>d. fst (upload_file stub_env ''u.txt'' ''more text'' full_world) =
            Inl \<lparr>status_code = 500, detail = d\<rparr>"
    and 2: "snd (upload_file stub_env ''u.txt'' ''more text'' full_world) = full_world"
    by simp_all
  from upload_cap [THEN conjunct2, rule_format, OF b]
  have 3: "map_of (documents (snd (upload_file stub_env ''notes.txt'' ''newer text'' notes_world)))
       ''notes.txt'' = Some (File ''newer text'')"
    by simp
  from 2 1 3 show ?thesis by (intro conjI)
qed

text \<open>
  C10. The cap check reads the number of regular files in the documents directory and
  nothing else: at \<open>20\<close> or more, the outcome of an upload is the same for every filename
  and content, and an upload under the name of a file that already exists, which would
  only replace it, is rejected like any other and changes nothing.
\<close>

theorem upload_cap_ignores_filename:
  assumes "20 \<le> length (get_document_list env w)"
  shows "length (get_document_list env w) =
           length (filter (\<lambda>(name, e). e \<noteq> Directory) (documents w))
    \<and> upload_file env name content w = upload_file env name' content' w
    \<and> (map_of (documents w) name = Some (File old)
        \<longrightarrow> (\<exists>d. fst (upload_file env name content w) = Inl \<lparr>status_code = 500, detail = d\<rparr>)
          \<and> snd (upload_file env name content w) = w)"
  using upload_file_at_cap [OF assms]
  by (simp add: length_get_document_list)

theorem upload_cap_ignores_filename_witness:
  "map_of (documents full_world) ''g.txt'' = Some (File ''text'')
   \<and> snd (upload_file stub_env ''g.txt'' ''newer text'' full_world) = full_world
   \<and> (\<exists>d. fst (upload_file stub_env ''g.txt'' ''newer text'' full_world) =
            Inl \<lparr>status_code = 500, detail = d\<rparr>)"
proof -
  have a: "20 \<le> length (get_document_list stub_env full_world)"
    by (simp add: full_world_count)
  have b: "map_of (documents full_world) ''g.txt'' = Some (File ''text'')"
    by (simp add: full_world_def)
  from upload_cap_ignores_filename
         [OF a, of "''g.txt''" "''newer text''" "''g.txt''" "''newer text''" "''text''",
          THEN conjunct2, THEN conjunct2, rule_format, OF b]
  have 1: "\<exists>d. fst (upload_file stub_env ''g.txt'' ''newer text'' full_world) =
            Inl \<lparr>status_code = 500, detail = d\<rparr>"
    and 2: "snd (upload_file stub_env ''g.txt'' ''newer text'' full_world) = full_world"
    by simp_all
  from b 2 1 show ?thesis by (intro conjI)
qed

section \<open>Delete\<close>


lemma fault_frame [simp]:
  "fault (w\<lparr>documents := d\<rparr>) = fault w"
  "fault (w\<lparr>vector_index := i\<rparr>) = fault w"
  "fault (w\<lparr>vector_store := b\<rparr>) = fault w"
  "fault (w\<lparr>trace := t\<rparr>) = fault w"
  by (simp_all add: fault_def)





end
